theory Spec2Isabelle
  imports Complex_Main "HOL-Library.Log_Nat"
begin

section \<open>The system monitor: data model\<close>

text \<open>
  The program is one Python class, \<open>SystemMonitor\<close>, in \<open>system_monitor.py\<close>. It reads
  the host through \<open>platform\<close>, \<open>psutil\<close> and \<open>GPUtil\<close>, writes records through a
  \<open>logging\<close> logger with a rotating file handler, and writes text to standard output.

  The embedding makes the outside world explicit. What the host answers at one moment
  is a record \<open>host\<close>. What a method does to the outside world is a list of events, in
  the order the calls are made: a call of a logging method, or text written to standard
  output. A method that may raise returns a sum, \<open>Inl\<close> carrying the exception. The
  logger then turns logging calls into file contents (\<open>deliver\<close>).

  Python's leading underscore cannot start a name here, so \<open>_setup_logger\<close>,
  \<open>_get_os_info\<close> and \<open>_get_gpu_info\<close> drop it, and \<open>__init__\<close> is \<open>init\<close>.
\<close>

subsection \<open>Exceptions, severities, time\<close>

text \<open>
  \<open>run\<close> distinguishes two classes of exception: \<open>KeyboardInterrupt\<close> and instances of
  \<open>Exception\<close>. An instance of \<open>Exception\<close> is represented by its \<open>str()\<close>, the only
  part of it the program reads (in \<open>f"...{e}"\<close>). These are the exceptions the calls of
  the program raise: none of them raises \<open>SystemExit\<close> or \<open>GeneratorExit\<close>, the other
  classes outside \<open>Exception\<close>.
\<close>

datatype exn = KeyboardInterrupt | Exception string

datatype level = DEBUG | INFO | WARNING | ERROR | CRITICAL

fun levelno :: "level \<Rightarrow> nat" where
  "levelno DEBUG = 10"
| "levelno INFO = 20"
| "levelno WARNING = 30"
| "levelno ERROR = 40"
| "levelno CRITICAL = 50"

fun levelname :: "level \<Rightarrow> string" where
  "levelname DEBUG = ''DEBUG''"
| "levelname INFO = ''INFO''"
| "levelname WARNING = ''WARNING''"
| "levelname ERROR = ''ERROR''"
| "levelname CRITICAL = ''CRITICAL''"

text \<open>The broken-down local time of a log record (\<open>time.struct_time\<close>), to the second.\<close>

record tm =
  tm_year :: nat
  tm_mon :: nat
  tm_mday :: nat
  tm_hour :: nat
  tm_min :: nat
  tm_sec :: nat

subsection \<open>Numbers and their rendering\<close>

text \<open>
  A Python float is modelled by the rational it denotes. \<open>round(x, n)\<close> rounds the exact
  value of the float \<open>x\<close> to \<open>n\<close> decimals, ties to even, and returns the float
  nearest to that decimal; the model keeps the decimal, which is what Python prints for
  that float.
\<close>

definition round_half_even :: "rat \<Rightarrow> int" where
  "round_half_even x =
     (let f = \<lfloor>x\<rfloor>; d = x - of_int f
      in if d < 1 / 2 then f else if 1 / 2 < d then f + 1 else if even f then f else f + 1)"

definition py_round :: "rat \<Rightarrow> nat \<Rightarrow> rat" where
  "py_round x ndigits = of_int (round_half_even (x * 10 ^ ndigits)) / 10 ^ ndigits"

text \<open>
  A float operation returns the exact result rounded to the nearest double, ties to
  even (\<open>fl\<close>): a double has a significand of 53 bits, so the unit in the last place of
  a value \<open>x\<close> is \<open>2\<close> to the power \<open>\<lfloor>log\<^sub>2 \<bar>x\<bar>\<rfloor> - 52\<close>, and no smaller than \<open>2\<close> to the
  power \<open>-1074\<close>. Overflow to infinity is left out: the values of this program are far
  from \<open>2\<close> to the power \<open>1024\<close>. The program has one float operation that rounds, the
  product \<open>gpu.load * 100\<close>. Its divisions are of integers by \<open>1024**2\<close> and \<open>1024**3\<close>,
  which are exact for byte counts below \<open>2\<close> to the power \<open>53\<close>.
\<close>

definition ilog2 :: "rat \<Rightarrow> int" where
  "ilog2 x = (if 1 \<le> x then bitlen \<lfloor>x\<rfloor> - 1 else - bitlen (\<lceil>1 / x\<rceil> - 1))"

definition fl :: "rat \<Rightarrow> rat" where
  "fl x =
     (if x = 0 then 0
      else let q = max (ilog2 \<bar>x\<bar> - 52) (- 1074)
           in of_int (round_half_even (x / 2 powi q)) * 2 powi q)"

definition float_mul :: "rat \<Rightarrow> rat \<Rightarrow> rat" where
  "float_mul x y = fl (x * y)"

text \<open>
  How Python prints a float (\<open>str\<close>, the shortest decimal that reads back) and how it
  quotes a string inside a printed dict (\<open>repr\<close>) are builtins of the interpreter; the
  model takes both as parameters.
\<close>

record builtins =
  str_float :: "rat \<Rightarrow> string"
  repr_str :: "string \<Rightarrow> string"

definition digit_char :: "nat \<Rightarrow> char" where
  "digit_char d = ''0123456789'' ! (d mod 10)"

fun str_nat :: "nat \<Rightarrow> string" where
  "str_nat n = (if n < 10 then [digit_char n] else str_nat (n div 10) @ [digit_char n])"

definition str_int :: "int \<Rightarrow> string" where
  "str_int i = (if i < 0 then CHR ''-'' # str_nat (nat (- i)) else str_nat (nat i))"

definition dec2 :: "nat \<Rightarrow> string" where
  "dec2 n = [digit_char (n div 10), digit_char n]"

definition dec4 :: "nat \<Rightarrow> string" where
  "dec4 n = [digit_char (n div 1000), digit_char (n div 100), digit_char (n div 10), digit_char n]"

subsection \<open>The host\<close>

text \<open>\<open>psutil.virtual_memory()\<close>: the fields the program reads.\<close>

record svmem =
  total :: int
  available :: int
  percent :: rat
  used :: int

text \<open>
  A device of \<open>GPUtil.getGPUs()\<close>: \<open>load\<close> is a fraction, a finite float, \<open>name\<close> the
  device name.
\<close>

record GPU =
  load :: rat
  name :: string

text \<open>
  What the host answers at one moment: the static platform queries, the three metric
  providers (each may raise), whether \<open>time.sleep\<close> is interrupted, the clock read
  by a record created in the loop body (\<open>clock\<close>) and by one created in an \<open>except\<close>
  clause of \<open>run\<close> (\<open>clock_except\<close>), and whether a write to the log file fails at that
  moment (\<open>log_write_fails\<close>: a full disk, a file that can no longer be written).
\<close>

record host =
  system :: string
  version :: string
  machine :: string
  cpu_count :: "int option"
  virtual_memory :: "exn + svmem"
  cpu_percent :: "exn + rat"
  getGPUs :: "exn + GPU list"
  sleep_raises :: "exn option"
  clock :: tm
  clock_except :: tm
  log_write_fails :: bool

subsection \<open>Events\<close>

datatype event = Log level tm string | Stdout string

definition newline :: char where
  "newline = CHR 0x0A"

text \<open>\<open>print(s)\<close> writes \<open>s\<close> and a line break to standard output.\<close>

definition print :: "string \<Rightarrow> event" where
  "print s = Stdout (s @ [newline])"

section \<open>The rotating log sink and the logger\<close>

text \<open>
  The source builds the sink in \<open>_setup_logger\<close> as
  \<open>RotatingFileHandler(self.log_file, maxBytes=5*1024*1024, backupCount=3)\<close> and never
  touches it again but through the logger. The handler itself is code of the standard
  library, not of the repository, so the sink is the Rotating Log Sink of the spec
  (sections 3 and 4.3).
\<close>

text \<open>
  Modelled from the spec: the state of the sink ("RotationState: current file size, count
  of backup files (bounded), file naming/ordering scheme"), missing from the source with
  the handler. The files hold the bytes of the encoded text; the backups are ordered by
  recency, the most recent first ("1 = most recent").
\<close>

record sink =
  path :: string
  max_bytes :: nat
  backup_count :: nat
  is_open :: bool
  active :: string
  backups :: "string list"

text \<open>
  Modelled from the spec: \<open>configure(path, max_bytes, backup_count)\<close>, the "scoped
  acquisition of the log file resource", missing from the source with the handler.
\<close>

definition configure :: "string \<Rightarrow> nat \<Rightarrow> nat \<Rightarrow> sink" where
  "configure p mb bc =
     \<lparr>path = p, max_bytes = mb, backup_count = bc, is_open = True, active = [], backups = []\<rparr>"

text \<open>
  Modelled from the spec: the "release (flush/close)" of the log file resource, missing
  from the source with the handler.
\<close>

definition release :: "sink \<Rightarrow> sink" where
  "release s = s\<lparr>is_open := False\<rparr>"

text \<open>
  Modelled from the spec: the rotation of a write, missing from the source with the
  handler: "the active file is renamed/shifted into the backup chain, backups beyond
  \<open>backup_count\<close> are deleted, and a fresh active file is opened".
\<close>

definition rotate :: "sink \<Rightarrow> sink" where
  "rotate s =
     s\<lparr>backups := take (backup_count s) (active s # backups s), active := [], is_open := True\<rparr>"

text \<open>
  Modelled from the spec: the size check of a write, missing from the source with the
  handler: "Before appending, checks current file size; if appending would exceed
  \<open>max_bytes\<close>, performs rotation".
\<close>

definition append_text :: "sink \<Rightarrow> string \<Rightarrow> sink" where
  "append_text s txt =
     (let s' = (if max_bytes s < length (active s) + length txt then rotate s else s)
      in s'\<lparr>active := active s' @ txt\<rparr>)"

text \<open>
  The formatter of \<open>_setup_logger\<close>: \<open>LOG_FORMAT = "%(asctime)s | %(levelname)s | %(message)s"\<close>
  with \<open>datefmt="%Y-%m-%d %H:%M:%S"\<close>. The fields of a \<open>struct_time\<close> are in range (a
  four-digit year), where \<open>strftime\<close> prints exactly these digits.
\<close>

definition LOG_FILENAME :: string where
  "LOG_FILENAME = ''system_monitor.log''"

definition format_time :: "tm \<Rightarrow> string" where
  "format_time t =
     dec4 (tm_year t) @ ''-'' @ dec2 (tm_mon t) @ ''-'' @ dec2 (tm_mday t) @ '' '' @
     dec2 (tm_hour t) @ '':'' @ dec2 (tm_min t) @ '':'' @ dec2 (tm_sec t)"

definition format_record :: "tm \<Rightarrow> level \<Rightarrow> string \<Rightarrow> string" where
  "format_record t lvl msg = format_time t @ '' | '' @ levelname lvl @ '' | '' @ msg"

text \<open>
  Modelled from the spec: \<open>write(level, message)\<close> of the sink, missing from the source
  with the handler (named \<open>write_record\<close> here): it "appends a formatted record", one
  record per line. The format is the source's, above.
\<close>

definition write_record :: "sink \<Rightarrow> tm \<Rightarrow> level \<Rightarrow> string \<Rightarrow> sink" where
  "write_record s t lvl msg = append_text s (format_record t lvl msg @ [newline])"

text \<open>
  The logger of \<open>_setup_logger\<close>: a severity threshold and the one handler. A logging
  call below the threshold creates no record (\<open>Logger.isEnabledFor\<close>).
\<close>

record logger =
  level :: level
  handler :: sink

definition setup_logger :: "string \<Rightarrow> logger" where
  "setup_logger log_file = \<lparr>level = INFO, handler = configure log_file (5 * 1024 * 1024) 3\<rparr>"

definition isEnabledFor :: "logger \<Rightarrow> level \<Rightarrow> bool" where
  "isEnabledFor lg lvl = (levelno (level lg) \<le> levelno lvl)"

fun handle :: "logger \<Rightarrow> event \<Rightarrow> logger" where
  "handle lg (Log lvl t msg) =
     (if isEnabledFor lg lvl then lg\<lparr>handler := write_record (handler lg) t lvl msg\<rparr> else lg)"
| "handle lg (Stdout s) = lg"

definition deliver :: "logger \<Rightarrow> event list \<Rightarrow> logger" where
  "deliver lg evs = foldl handle lg evs"


section \<open>The monitor\<close>

record os_info =
  OS :: string
  Version :: string
  Arch :: string
  Cores :: "int option"
  Total_RAM :: string

record metrics =
  cpu_usage :: rat
  ram_usage :: rat
  ram_used :: rat
  ram_free :: rat
  gpu_usage :: rat
  gpu_name :: string

record monitor =
  interval :: int
  log_file :: string
  logger :: logger
  os_info :: os_info

text \<open>\<open>_get_os_info\<close>: only \<open>psutil.virtual_memory()\<close> is a query that may raise.\<close>

definition get_os_info :: "builtins \<Rightarrow> host \<Rightarrow> exn + os_info" where
  "get_os_info B h =
     (case virtual_memory h of
        Inl x \<Rightarrow> Inl x
      | Inr vm \<Rightarrow>
          Inr \<lparr>OS = system h, Version = version h, Arch = machine h, Cores = cpu_count h,
               Total_RAM = str_float B (py_round (of_int (total vm) / 1024 ^ 3) 2) @ '' GB''\<rparr>)"

definition init :: "builtins \<Rightarrow> int \<Rightarrow> string \<Rightarrow> host \<Rightarrow> exn + monitor" where
  "init B iv lf h =
     (case get_os_info B h of
        Inl x \<Rightarrow> Inl x
      | Inr info \<Rightarrow> Inr \<lparr>interval = iv, log_file = lf, logger = setup_logger lf, os_info = info\<rparr>)"

text \<open>
  \<open>_get_gpu_info\<close> returns the dict \<open>{"usage": u, "name": n}\<close>, here the pair \<open>(u, n)\<close>.
  \<open>except Exception\<close> does not catch \<open>KeyboardInterrupt\<close>, which leaves the method.
\<close>

definition get_gpu_info :: "host \<Rightarrow> (exn + rat \<times> string) \<times> event list" where
  "get_gpu_info h =
     (case getGPUs h of
        Inl KeyboardInterrupt \<Rightarrow> (Inl KeyboardInterrupt, [])
      | Inl (Exception e) \<Rightarrow>
          (Inr (0, ''N/A''), [Log DEBUG (clock h) (''Could not retrieve GPU info: '' @ e)])
      | Inr [] \<Rightarrow> (Inr (0, ''N/A''), [])
      | Inr (gpu # _) \<Rightarrow> (Inr (py_round (float_mul (load gpu) 100) 2, name gpu), []))"

definition fetch_metrics :: "host \<Rightarrow> (exn + metrics) \<times> event list" where
  "fetch_metrics h =
     (case cpu_percent h of
        Inl x \<Rightarrow> (Inl x, [])
      | Inr c \<Rightarrow>
          (case virtual_memory h of
             Inl x \<Rightarrow> (Inl x, [])
           | Inr ram \<Rightarrow>
               (case get_gpu_info h of
                  (Inl x, evs) \<Rightarrow> (Inl x, evs)
                | (Inr (u, n), evs) \<Rightarrow>
                    (Inr \<lparr>cpu_usage = c, ram_usage = percent ram,
                          ram_used = py_round (of_int (used ram) / 1024 ^ 2) 2,
                          ram_free = py_round (of_int (available ram) / 1024 ^ 2) 2,
                          gpu_usage = u, gpu_name = n\<rparr>, evs))))"

text \<open>\<open>str(self.os_info)\<close>: the dict as Python prints it, keys in insertion order.\<close>

definition quote :: "string \<Rightarrow> string" where
  "quote s = CHR 0x27 # s @ [CHR 0x27]"

definition str_dict :: "builtins \<Rightarrow> os_info \<Rightarrow> string" where
  "str_dict B d =
     ''{'' @ quote ''OS'' @ '': '' @ repr_str B (OS d) @ '', '' @
     quote ''Version'' @ '': '' @ repr_str B (Version d) @ '', '' @
     quote ''Arch'' @ '': '' @ repr_str B (Arch d) @ '', '' @
     quote ''Cores'' @ '': '' @ (case Cores d of None \<Rightarrow> ''None'' | Some n \<Rightarrow> str_int n) @ '', '' @
     quote ''Total_RAM'' @ '': '' @ repr_str B (Total_RAM d) @ ''}''"

definition header :: "builtins \<Rightarrow> monitor \<Rightarrow> string" where
  "header B m = ''--- MONITOR STARTED ---'' @ [newline] @ ''System Info: '' @ str_dict B (os_info m)"

definition log_system_info :: "builtins \<Rightarrow> monitor \<Rightarrow> tm \<Rightarrow> event list" where
  "log_system_info B m t = [Log INFO t (header B m)]"

text \<open>The two texts of a tick: the log message and the live console line.\<close>

definition log_msg :: "builtins \<Rightarrow> metrics \<Rightarrow> string" where
  "log_msg B s =
     ''CPU: '' @ str_float B (cpu_usage s) @ ''% | '' @
     ''RAM: '' @ str_float B (ram_usage s) @ ''% ('' @ str_float B (ram_used s) @ ''MB Used) | '' @
     ''GPU: '' @ str_float B (gpu_usage s) @ ''% ('' @ gpu_name s @ '')''"

definition live_line :: "builtins \<Rightarrow> metrics \<Rightarrow> string" where
  "live_line B s =
     CHR 0x0D # ''[LIVE] CPU: '' @ str_float B (cpu_usage s) @ ''% | RAM: '' @
     str_float B (ram_usage s) @ ''% | GPU: '' @ str_float B (gpu_usage s) @ ''%   ''"

text \<open>\<open>time.sleep(self.interval)\<close> raises \<open>ValueError\<close> on a negative length.\<close>

definition time_sleep :: "int \<Rightarrow> host \<Rightarrow> exn option" where
  "time_sleep iv h =
     (if iv < 0 then Some (Exception ''sleep length must be non-negative'') else sleep_raises h)"

text \<open>
  One iteration of \<open>while True\<close> in \<open>run\<close>: the exception that leaves the loop body, if
  any, and the events up to that point.
\<close>

definition tick :: "builtins \<Rightarrow> int \<Rightarrow> host \<Rightarrow> exn option \<times> event list" where
  "tick B iv h =
     (case fetch_metrics h of
        (Inl x, evs) \<Rightarrow> (Some x, evs)
      | (Inr s, evs) \<Rightarrow>
          (time_sleep iv h, evs @ [Log INFO (clock h) (log_msg B s), Stdout (live_line B s)]))"

text \<open>
  The loop runs over the hosts of the successive ticks. It leaves with the exception
  raised and the host of that tick; on a list of ticks that raise nothing it is still
  running when the list ends (\<open>None\<close>).
\<close>

fun loop :: "builtins \<Rightarrow> int \<Rightarrow> host list \<Rightarrow> (exn \<times> host) option \<times> event list" where
  "loop B iv [] = (None, [])"
| "loop B iv (h # hs) =
     (case tick B iv h of
        (Some x, evs) \<Rightarrow> (Some (x, h), evs)
      | (None, evs) \<Rightarrow> (case loop B iv hs of (r, evs') \<Rightarrow> (r, evs @ evs')))"

datatype run_result = Returned | Running

definition run :: "builtins \<Rightarrow> monitor \<Rightarrow> tm \<Rightarrow> host list \<Rightarrow> run_result \<times> event list" where
  "run B m t0 hs =
     (let start =
            [print (''System monitoring service started. (Log file: '' @ log_file m @ '')''),
             print (''Press CTRL+C to exit.'' @ [newline])] @
            log_system_info B m t0
      in case loop B (interval m) hs of
           (None, evs) \<Rightarrow> (Running, start @ evs)
         | (Some (KeyboardInterrupt, h), evs) \<Rightarrow>
             (Returned,
              start @ evs @
              [print ([newline, newline] @ ''Stopping service...''),
               Log INFO (clock_except h) ''--- MONITOR STOPPED ---''])
         | (Some (Exception e, h), evs) \<Rightarrow>
             (Returned,
              start @ evs @
              [Log CRITICAL (clock_except h) (''Unexpected error: '' @ e),
               print ([newline] @ ''An error occurred: '' @ e)]))"

section \<open>Observations used in the properties\<close>

text \<open>
  The exception that leaves the loop body on a tick, read off the host: the providers
  are asked in the order CPU, memory, GPU, and the sleep comes last. An \<open>Exception\<close>
  of the GPU query does not leave \<open>_get_gpu_info\<close>.
\<close>

definition escapes :: "int \<Rightarrow> host \<Rightarrow> exn option" where
  "escapes iv h =
     (case cpu_percent h of
        Inl x \<Rightarrow> Some x
      | Inr c \<Rightarrow>
          (case virtual_memory h of
             Inl x \<Rightarrow> Some x
           | Inr ram \<Rightarrow>
               (case getGPUs h of
                  Inl KeyboardInterrupt \<Rightarrow> Some KeyboardInterrupt
                | _ \<Rightarrow> time_sleep iv h)))"

text \<open>The lines of a text file: each ends at a line break, the last possibly without one.\<close>

fun lines_from :: "string \<Rightarrow> string \<Rightarrow> string list" where
  "lines_from cur [] = (if cur = [] then [] else [cur])"
| "lines_from cur (c # cs) =
     (if c = newline then cur # lines_from [] cs else lines_from (cur @ [c]) cs)"

definition file_lines :: "string \<Rightarrow> string list" where
  "file_lines txt = lines_from [] txt"

text \<open>The shape \<open>YYYY-MM-DD HH:MM:SS\<close>, and a line \<open>YYYY-MM-DD HH:MM:SS | LEVEL | message\<close>.\<close>

definition is_digit :: "char \<Rightarrow> bool" where
  "is_digit c = (c \<in> set ''0123456789'')"

fun is_timestamp :: "string \<Rightarrow> bool" where
  "is_timestamp [y1, y2, y3, y4, s1, m1, m2, s2, d1, d2, s3, h1, h2, s4, n1, n2, s5, c1, c2] =
     (list_all is_digit [y1, y2, y3, y4, m1, m2, d1, d2, h1, h2, n1, n2, c1, c2] \<and>
      s1 = CHR ''-'' \<and> s2 = CHR ''-'' \<and> s3 = CHR '' '' \<and> s4 = CHR '':'' \<and> s5 = CHR '':'')"
| "is_timestamp _ = False"

definition is_record_line :: "string \<Rightarrow> bool" where
  "is_record_line l =
     (is_timestamp (take 19 l) \<and>
      list_ex (\<lambda>lvl. take (length ('' | '' @ levelname lvl @ '' | '')) (drop 19 l) =
                     '' | '' @ levelname lvl @ '' | '')
        [DEBUG, INFO, WARNING, ERROR, CRITICAL])"

text \<open>A logging call that carries the startup header.\<close>

fun is_header :: "event \<Rightarrow> bool" where
  "is_header (Log lvl t msg) = (take 23 msg = ''--- MONITOR STARTED ---'')"
| "is_header (Stdout s) = False"

text \<open>Any number of writes to a sink, in order.\<close>

fun write_all :: "sink \<Rightarrow> (tm \<times> level \<times> string) list \<Rightarrow> sink" where
  "write_all s [] = s"
| "write_all s ((t, lvl, msg) # rs) = write_all (write_record s t lvl msg) rs"

section \<open>Sample inputs\<close>

text \<open>
  A host with 4000 MiB of memory, 1600 MiB used, 2400 MiB available, 12.5 % CPU and no
  GPU; builtins that print numbers of at most two decimals and quote plain strings the
  way Python does.
\<close>

definition sample_str_float :: "rat \<Rightarrow> string" where
  "sample_str_float x =
     (let n = round_half_even (x * 100); a = nat \<bar>n\<bar>
      in (if n < 0 then ''-'' else []) @ str_nat (a div 100) @ ''.'' @
         (if a mod 10 = 0 then [digit_char (a div 10)] else dec2 a))"

definition sample_builtins :: builtins where
  "sample_builtins = \<lparr>str_float = sample_str_float, repr_str = quote\<rparr>"

definition sample_tm :: tm where
  "sample_tm = \<lparr>tm_year = 2024, tm_mon = 1, tm_mday = 15, tm_hour = 9, tm_min = 30, tm_sec = 5\<rparr>"

definition sample_vm :: svmem where
  "sample_vm = \<lparr>total = 4194304000, available = 2516582400, percent = 40, used = 1677721600\<rparr>"

definition sample_host :: host where
  "sample_host =
     \<lparr>system = ''Linux'', version = ''#1 SMP'', machine = ''x86_64'', cpu_count = Some 8,
      virtual_memory = Inr sample_vm, cpu_percent = Inr (25 / 2), getGPUs = Inr [],
      sleep_raises = None, clock = sample_tm, clock_except = sample_tm,
      log_write_fails = False\<rparr>"

definition sample_monitor :: monitor where
  "sample_monitor =
     \<lparr>interval = 5, log_file = LOG_FILENAME, logger = setup_logger LOG_FILENAME,
      os_info = \<lparr>OS = ''Linux'', Version = ''#1 SMP'', Arch = ''x86_64'', Cores = Some 8,
                 Total_RAM = ''3.91 GB''\<rparr>\<rparr>"

text \<open>A message as long as the cap of the sink, 5 MiB.\<close>

definition sample_long_message :: string where
  "sample_long_message = replicate (5 * 1024 * 1024) (CHR ''x'')"

section \<open>Basic facts\<close>

subsection \<open>Evaluation on the sample inputs\<close>

declare str_nat.simps [simp del]

lemma floor_numeral_div: "\<lfloor>(numeral a :: rat) / numeral b\<rfloor> = numeral a div numeral b"
  using floor_divide_of_int_eq [of "numeral a" "numeral b", where ?'a = rat] by simp

lemmas str_float_eval =
  sample_str_float_def round_half_even_def Let_def str_nat.simps dec2_def digit_char_def
  floor_numeral_div

lemma sample_str_float_values:
  "sample_str_float (391 / 100) = ''3.91''"
  "sample_str_float (25 / 2) = ''12.5''"
  "sample_str_float 0 = ''0.0''"
  "sample_str_float 40 = ''40.0''"
  "sample_str_float 1600 = ''1600.0''"
  by (simp_all add: str_float_eval)

lemma sample_total_ram: "py_round (125 / 32) 2 = 391 / 100"
  by (simp add: py_round_def round_half_even_def Let_def floor_numeral_div)

lemma init_sample: "init sample_builtins 5 LOG_FILENAME sample_host = Inr sample_monitor"
  by (simp add: init_def get_os_info_def sample_host_def sample_vm_def sample_builtins_def
      sample_monitor_def sample_total_ram sample_str_float_values)

lemma format_time_sample: "format_time sample_tm = ''2024-01-15 09:30:05''"
  by (simp add: format_time_def sample_tm_def dec2_def dec4_def digit_char_def)

lemma fetch_metrics_sample:
  "fetch_metrics sample_host =
     (Inr \<lparr>cpu_usage = 25 / 2, ram_usage = 40, ram_used = 1600, ram_free = 2400,
           gpu_usage = 0, gpu_name = ''N/A''\<rparr>, [])"
  by (simp add: fetch_metrics_def get_gpu_info_def sample_host_def sample_vm_def py_round_def
      round_half_even_def Let_def floor_numeral_div)

subsection \<open>Rounding\<close>

lemma ilog2_bounds:
  assumes "0 < x"
  shows "2 powi ilog2 x \<le> x \<and> x < 2 powi (ilog2 x + 1)"
proof (cases "1 \<le> x")
  case True
  let ?n = "\<lfloor>x\<rfloor>"
  have n: "0 < ?n" using True by simp
  have b: "1 \<le> bitlen ?n"
    using n bitlen_eq_zero_iff [of ?n] bitlen_nonneg [of ?n] by linarith
  from bitlen_bounds [OF n]
  have lo: "2 ^ nat (bitlen ?n - 1) \<le> ?n" and hi: "?n < 2 ^ nat (bitlen ?n)" by simp_all
  have "(2::rat) ^ nat (bitlen ?n - 1) = of_int (2 ^ nat (bitlen ?n - 1))" by simp
  also have "\<dots> \<le> of_int ?n" using lo by (simp only: of_int_le_iff)
  also have "\<dots> \<le> x" by (rule of_int_floor_le)
  finally have 1: "(2::rat) ^ nat (bitlen ?n - 1) \<le> x" .
  have "?n + 1 \<le> 2 ^ nat (bitlen ?n)" using hi by simp
  then have "(of_int (?n + 1) :: rat) \<le> of_int (2 ^ nat (bitlen ?n))"
    by (simp only: of_int_le_iff)
  then have c: "(of_int (?n + 1) :: rat) \<le> 2 ^ nat (bitlen ?n)"
    by (simp only: of_int_power of_int_numeral)
  have "x < of_int (?n + 1)" using floor_correct [of x] by blast
  then have 2: "x < (2::rat) ^ nat (bitlen ?n)"
    using c by (rule less_le_trans)
  have e: "ilog2 x = bitlen ?n - 1" using True by (simp add: ilog2_def)
  show ?thesis
    using 1 2 b by (simp add: e power_int_def)
next
  case False
  let ?y = "1 / x"
  let ?m = "\<lceil>?y\<rceil> - 1"
  have y: "1 < ?y" using False assms by simp
  have m: "0 < ?m" using y by (simp add: less_ceiling_iff)
  have b: "1 \<le> bitlen ?m"
    using m bitlen_eq_zero_iff [of ?m] bitlen_nonneg [of ?m] by linarith
  from bitlen_bounds [OF m]
  have lo: "2 ^ nat (bitlen ?m - 1) \<le> ?m" and hi: "?m < 2 ^ nat (bitlen ?m)" by simp_all
  have my: "of_int ?m < ?y" using ceiling_correct [of ?y] by simp
  have "(2::rat) ^ nat (bitlen ?m - 1) = of_int (2 ^ nat (bitlen ?m - 1))" by simp
  also have "\<dots> \<le> of_int ?m" using lo by (simp only: of_int_le_iff)
  finally have 1: "(2::rat) ^ nat (bitlen ?m - 1) < ?y" using my by simp
  have "\<lceil>?y\<rceil> \<le> 2 ^ nat (bitlen ?m)" using hi by simp
  then have "(of_int \<lceil>?y\<rceil> :: rat) \<le> of_int (2 ^ nat (bitlen ?m))"
    by (simp only: of_int_le_iff)
  then have c: "(of_int \<lceil>?y\<rceil> :: rat) \<le> 2 ^ nat (bitlen ?m)"
    by (simp only: of_int_power of_int_numeral)
  have 2: "?y \<le> (2::rat) ^ nat (bitlen ?m)"
    using le_of_int_ceiling [of ?y] c by (rule order_trans)
  have e: "ilog2 x = - bitlen ?m" using False by (simp add: ilog2_def)
  have p: "(0::rat) < 2 ^ k" for k by simp
  have A: "1 / (2::rat) ^ nat (bitlen ?m) \<le> x"
    using 2 assms p [of "nat (bitlen ?m)"] by (simp add: field_simps)
  have B: "x < 1 / (2::rat) ^ nat (bitlen ?m - 1)"
    using 1 assms p [of "nat (bitlen ?m - 1)"] by (simp add: field_simps)
  have "2 powi (- bitlen ?m) = 1 / (2::rat) ^ nat (bitlen ?m)"
    using b by (simp add: power_int_def field_simps)
  moreover have "2 powi (- bitlen ?m + 1) = 1 / (2::rat) ^ nat (bitlen ?m - 1)"
  proof (cases "bitlen ?m = 1")
    case True
    then show ?thesis by simp
  next
    case False
    with b have "1 < bitlen ?m" by simp
    then have "nat (- (- bitlen ?m + 1)) = nat (bitlen ?m - 1)" "- bitlen ?m + 1 < 0"
      by simp_all
    then show ?thesis
      by (simp add: power_int_def field_simps)
  qed
  ultimately show ?thesis
    using A B by (simp add: e)
qed

lemma ilog2_less:
  assumes "0 < x" and "x < 2 powi k" and "0 \<le> k"
  shows "ilog2 x < k"
proof -
  have "2 powi ilog2 x \<le> x"
    using ilog2_bounds [OF assms(1)] by simp
  with assms(2) have "(2::rat) powi ilog2 x < 2 powi k" by simp
  then show ?thesis
    using assms(3) by (intro power_int_le_imp_less_exp [of "2::rat"]) simp_all
qed

lemma ilog2_unique:
  assumes "0 < x" and "2 powi e \<le> x" and "x < 2 powi (e + 1)"
  shows "ilog2 x = e"
proof -
  have b: "2 powi ilog2 x \<le> x" "x < 2 powi (ilog2 x + 1)"
    using ilog2_bounds [OF assms(1)] by simp_all
  have "(2::rat) powi e < 2 powi (ilog2 x + 1)"
    using assms(2) b(2) by simp
  then have 1: "e < ilog2 x + 1"
    using power_int_increasing [of "ilog2 x + 1" e "2::rat"] by (cases "e < ilog2 x + 1") auto
  have "(2::rat) powi ilog2 x < 2 powi (e + 1)"
    using assms(3) b(1) by simp
  then have 2: "ilog2 x < e + 1"
    using power_int_increasing [of "e + 1" "ilog2 x" "2::rat"] by (cases "ilog2 x < e + 1") auto
  from 1 2 show ?thesis by simp
qed

lemma round_half_even_nonneg: "0 \<le> x \<Longrightarrow> 0 \<le> round_half_even x"
  by (simp add: round_half_even_def Let_def)

lemma round_half_even_le:
  assumes "x \<le> of_int n"
  shows "round_half_even x \<le> n"
proof (cases "\<lfloor>x\<rfloor> = n")
  case True
  have "of_int \<lfloor>x\<rfloor> \<le> x" by (rule of_int_floor_le)
  with True assms have "x = of_int n" by simp
  then show ?thesis by (simp add: round_half_even_def Let_def)
next
  case False
  have "\<lfloor>x\<rfloor> \<le> n" using assms by (simp add: floor_le_iff)
  with False have "\<lfloor>x\<rfloor> + 1 \<le> n" by simp
  then show ?thesis by (simp add: round_half_even_def Let_def)
qed

lemma round_half_even_nearest:
  "\<bar>of_int (round_half_even x) - x\<bar> \<le> 1 / 2 \<and>
   (\<bar>of_int (round_half_even x) - x\<bar> = 1 / 2 \<longrightarrow> even (round_half_even x))"
proof -
  define f where "f = \<lfloor>x\<rfloor>"
  define d where "d = x - of_int f"
  have d: "0 \<le> d" "d < 1"
    using floor_correct [of x] by (simp_all add: d_def f_def)
  have R: "round_half_even x =
      (if d < 1 / 2 then f else if 1 / 2 < d then f + 1 else if even f then f else f + 1)"
    unfolding round_half_even_def Let_def d_def f_def by (rule refl)
  consider "d < 1 / 2" | "1 / 2 < d" | "d = 1 / 2" "even f" | "d = 1 / 2" "odd f"
    by fastforce
  then show ?thesis
  proof cases
    case 1
    then have r: "round_half_even x = f"
      by (simp add: R)
    have "of_int (round_half_even x) - x = - d" by (simp add: r d_def)
    with 1 d show ?thesis by simp
  next
    case 2
    then have r: "round_half_even x = f + 1"
      by (simp add: R)
    have "of_int (round_half_even x) - x = 1 - d" by (simp add: r d_def)
    with 2 d show ?thesis by simp
  next
    case 3
    then have r: "round_half_even x = f"
      by (simp add: R)
    have "of_int (round_half_even x) - x = - d" by (simp add: r d_def)
    with 3 show ?thesis by (simp add: r)
  next
    case 4
    then have r: "round_half_even x = f + 1"
      by (simp add: R)
    have "of_int (round_half_even x) - x = 1 - d" by (simp add: r d_def)
    with 4 show ?thesis by (simp add: r)
  qed
qed

lemma fl_nonneg: "0 \<le> x \<Longrightarrow> 0 \<le> fl x"
  by (simp add: fl_def Let_def round_half_even_nonneg)

lemma fl_le_of_int:
  assumes "0 \<le> x" and "x \<le> of_int n" and "of_int n < (2::rat) powi 53"
  shows "fl x \<le> of_int n"
proof (cases "x = 0")
  case True
  with assms show ?thesis by (simp add: fl_def)
next
  case False
  with assms(1) have pos: "0 < x" by simp
  define q where "q = max (ilog2 \<bar>x\<bar> - 52) (- 1074)"
  have "x < 2 powi 53" using assms(2,3) by simp
  then have "ilog2 x < 53" using pos by (intro ilog2_less) simp_all
  then have q: "q \<le> 0" using pos by (simp add: q_def)
  define k where "k = nat (- q)"
  have p: "(2::rat) powi q = 1 / 2 ^ k"
    using q by (cases "q = 0") (simp_all add: k_def power_int_def field_simps)
  have "x / 2 powi q = x * 2 ^ k" by (simp add: p)
  also have "\<dots> \<le> of_int n * 2 ^ k" using assms(2) by simp
  also have "\<dots> = of_int (n * 2 ^ k)" by simp
  finally have "round_half_even (x / 2 powi q) \<le> n * 2 ^ k"
    by (rule round_half_even_le)
  then have "(of_int (round_half_even (x / 2 powi q)) :: rat) \<le> of_int (n * 2 ^ k)"
    by (simp only: of_int_le_iff)
  then have "of_int (round_half_even (x / 2 powi q)) * (1 / 2 ^ k) \<le> (of_int n :: rat)"
    by (simp add: field_simps)
  then show ?thesis
    using False by (simp add: fl_def Let_def q_def [symmetric] p)
qed

lemma py_round_nonneg: "0 \<le> x \<Longrightarrow> 0 \<le> py_round x k"
  by (simp add: py_round_def round_half_even_nonneg)

lemma py_round_le:
  assumes "x \<le> of_int n"
  shows "py_round x k \<le> of_int n"
proof -
  have "x * 10 ^ k \<le> of_int (n * 10 ^ k)"
    using assms by simp
  then have "round_half_even (x * 10 ^ k) \<le> n * 10 ^ k"
    by (rule round_half_even_le)
  then have "(of_int (round_half_even (x * 10 ^ k)) :: rat) \<le> of_int (n * 10 ^ k)"
    by (simp only: of_int_le_iff)
  then show ?thesis
    by (simp add: py_round_def divide_le_eq)
qed

lemma ilog2_sample: "ilog2 (144115188075855875 / 1152921504606846976) = - 3"
  by (rule ilog2_unique) (simp_all add: power_int_minus)

lemma float_mul_sample:
  "float_mul (5764607523034235 / 4611686018427387904) 100 = 1 / 8"
  by (simp add: float_mul_def fl_def ilog2_sample Let_def power_int_minus round_half_even_def
      floor_numeral_div)

subsection \<open>The logger\<close>

lemma level_handle: "level (handle lg ev) = level lg"
  by (cases ev) simp_all

lemma level_deliver: "level (deliver lg evs) = level lg"
  unfolding deliver_def by (induction evs arbitrary: lg) (simp_all add: level_handle)

lemma deliver_append: "deliver lg (xs @ ys) = deliver (deliver lg xs) ys"
  by (simp add: deliver_def)

lemma deliver_Nil: "deliver lg [] = lg"
  by (simp add: deliver_def)

lemma deliver_Cons: "deliver lg (ev # evs) = deliver (handle lg ev) evs"
  by (simp add: deliver_def)

lemma init_logger: "init B iv lf h = Inr m \<Longrightarrow> logger m = setup_logger lf"
  by (auto simp: init_def split: sum.splits)

lemma gpu_events_debug:
  "get_gpu_info h = (r, evs) \<Longrightarrow> level lg = INFO \<Longrightarrow> deliver lg evs = lg"
  by (auto simp: get_gpu_info_def deliver_def isEnabledFor_def
      split: sum.splits exn.splits list.splits)

lemma fetch_events_debug:
  "fetch_metrics h = (r, evs) \<Longrightarrow> level lg = INFO \<Longrightarrow> deliver lg evs = lg"
  by (auto simp: fetch_metrics_def deliver_Nil split: sum.splits prod.splits
      dest: gpu_events_debug)

lemma active_append_text: "\<exists>old. active (append_text s txt) = old @ txt"
  by (simp add: append_text_def rotate_def Let_def)

lemma active_write_record:
  "\<exists>old. active (write_record s t lvl msg) = old @ format_record t lvl msg @ [newline]"
  unfolding write_record_def by (rule active_append_text)

section \<open>The GPU adapter\<close>

text \<open>
  Claim C1, as the code has it. \<open>_get_gpu_info\<close> never hands an error of the GPU query to
  its caller. When the query raises an \<open>Exception\<close>, the method makes one logging call
  at debug severity and returns the default pair \<open>(0.0, "N/A")\<close>. When the query reports
  no device, it returns the same default pair and makes no logging call. When at least
  one device is present, it makes no logging call and returns the name of the first
  device with its load as a percentage rounded to two decimals: the number of
  hundredths \<open>k\<close> is the integer nearest to a hundred times the float product
  \<open>gpu.load * 100\<close>, the even one of the two when the product lies half-way. A user
  interrupt during the query is not an error of the query and passes through.
\<close>

theorem get_gpu_info_outcomes:
  "get_gpu_info (h\<lparr>getGPUs := Inl (Exception e)\<rparr>) =
     (Inr (0, ''N/A''), [Log DEBUG (clock h) (''Could not retrieve GPU info: '' @ e)]) \<and>
   get_gpu_info (h\<lparr>getGPUs := Inr []\<rparr>) = (Inr (0, ''N/A''), []) \<and>
   (\<exists>k::int.
      get_gpu_info (h\<lparr>getGPUs := Inr (g # gs)\<rparr>) = (Inr (of_int k / 100, name g), []) \<and>
      \<bar>of_int k - float_mul (load g) 100 * 100\<bar> \<le> 1 / 2 \<and>
      (\<bar>of_int k - float_mul (load g) 100 * 100\<bar> = 1 / 2 \<longrightarrow> even k)) \<and>
   get_gpu_info (h\<lparr>getGPUs := Inl KeyboardInterrupt\<rparr>) = (Inl KeyboardInterrupt, [])"
proof -
  let ?k = "round_half_even (float_mul (load g) 100 * 100)"
  have "get_gpu_info (h\<lparr>getGPUs := Inr (g # gs)\<rparr>) = (Inr (of_int ?k / 100, name g), [])"
    by (simp add: get_gpu_info_def py_round_def)
  moreover have "\<bar>of_int ?k - float_mul (load g) 100 * 100\<bar> \<le> 1 / 2"
    "\<bar>of_int ?k - float_mul (load g) 100 * 100\<bar> = 1 / 2 \<longrightarrow> even ?k"
    using round_half_even_nearest [of "float_mul (load g) 100 * 100"] by blast+
  ultimately have "\<exists>k::int.
      get_gpu_info (h\<lparr>getGPUs := Inr (g # gs)\<rparr>) = (Inr (of_int k / 100, name g), []) \<and>
      \<bar>of_int k - float_mul (load g) 100 * 100\<bar> \<le> 1 / 2 \<and>
      (\<bar>of_int k - float_mul (load g) 100 * 100\<bar> = 1 / 2 \<longrightarrow> even k)"
    by blast
  then show ?thesis
    by (simp add: get_gpu_info_def)
qed

text \<open>
  A device whose load is the double nearest to \<open>0.00125\<close>, a little above it. The float
  product with \<open>100\<close> is \<open>0.125\<close> exactly, half-way between \<open>0.12\<close> and \<open>0.13\<close>, and the
  figure returned is \<open>0.12\<close>.
\<close>

theorem get_gpu_info_outcomes_witness:
  "get_gpu_info
     (sample_host\<lparr>getGPUs :=
        Inr [\<lparr>load = 5764607523034235 / 4611686018427387904, name = ''GPU0''\<rparr>]\<rparr>) =
   (Inr (12 / 100, ''GPU0''), [])"
proof -
  let ?g = "\<lparr>load = 5764607523034235 / 4611686018427387904, name = ''GPU0''\<rparr>"
  have p: "float_mul (load ?g) 100 * 100 = 25 / 2"
    by (simp add: float_mul_sample)
  from get_gpu_info_outcomes [where h = sample_host and g = ?g and gs = "[]"]
  obtain k :: int where
    e: "get_gpu_info (sample_host\<lparr>getGPUs := Inr [?g]\<rparr>) = (Inr (of_int k / 100, name ?g), [])"
    and b: "\<bar>of_int k - float_mul (load ?g) 100 * 100\<bar> \<le> 1 / 2"
    and t: "\<bar>of_int k - float_mul (load ?g) 100 * 100\<bar> = 1 / 2 \<longrightarrow> even k"
    by blast
  from b have "(12::rat) \<le> of_int k" "of_int k \<le> (13::rat)"
    unfolding p by linarith+
  then have "12 \<le> k" "k \<le> 13"
    by linarith+
  then have "k = 12 \<or> k = 13"
    by linarith
  moreover have "k \<noteq> 13"
    using t unfolding p by auto
  ultimately have "k = 12"
    by simp
  with e show ?thesis
    by simp
qed

text \<open>
  Claim C1 as stated asks for a debug record on every outcome without a usable device.
  On the sample host, which reports no device, the method returns the default pair and
  makes no logging call at all.
\<close>

theorem get_gpu_info_no_device_silent:
  "getGPUs sample_host = Inr [] \<and> get_gpu_info sample_host = (Inr (0, ''N/A''), [])"
  by (simp add: get_gpu_info_def sample_host_def)

text \<open>
  Claim C10. The logger of a monitor has threshold \<open>INFO\<close>, so the debug call of the
  failure branch of \<open>_get_gpu_info\<close> creates no record: whatever has been logged before,
  the logger, and with it the active file and the backups, is unchanged.
\<close>

theorem gpu_failure_not_persisted:
  assumes "init B iv lf h0 = Inr m"
  shows "deliver (deliver (logger m) evs)
           (snd (get_gpu_info (h\<lparr>getGPUs := Inl (Exception e)\<rparr>))) =
         deliver (logger m) evs"
proof -
  have "level (deliver (logger m) evs) = INFO"
    using init_logger [OF assms] by (simp add: level_deliver setup_logger_def)
  then show ?thesis
    by (simp add: get_gpu_info_def deliver_def isEnabledFor_def)
qed

theorem gpu_failure_not_persisted_witness:
  "deliver (deliver (logger sample_monitor) [Log INFO sample_tm ''x''])
     (snd (get_gpu_info (sample_host\<lparr>getGPUs := Inl (Exception ''no driver'')\<rparr>))) =
   deliver (logger sample_monitor) [Log INFO sample_tm ''x'']"
  by (rule gpu_failure_not_persisted [OF init_sample])

section \<open>The record of a tick\<close>

text \<open>
  Claim C5. On a tick whose snapshot is \<open>s\<close>, the loop body makes one logging call at
  \<open>INFO\<close> whose message is exactly
  \<open>CPU: <cpu_usage>% | RAM: <ram_usage>% (<ram_used>MB Used) | GPU: <gpu_usage>% (<gpu_name>)\<close>
  with the values of \<open>s\<close> as Python prints them, and a logger with threshold \<open>INFO\<close>
  ends its active file with the record of that message.
\<close>

theorem tick_log_message:
  assumes "fetch_metrics h = (Inr s, evs)" and "level lg = INFO"
  shows "snd (tick B iv h) =
           evs @ [Log INFO (clock h)
                    (''CPU: '' @ str_float B (cpu_usage s) @ ''% | RAM: '' @
                     str_float B (ram_usage s) @ ''% ('' @ str_float B (ram_used s) @
                     ''MB Used) | GPU: '' @ str_float B (gpu_usage s) @ ''% ('' @
                     gpu_name s @ '')''),
                  Stdout (live_line B s)] \<and>
         (\<exists>old. active (handler (deliver lg (snd (tick B iv h)))) =
            old @ format_time (clock h) @ '' | INFO | '' @
            ''CPU: '' @ str_float B (cpu_usage s) @ ''% | RAM: '' @
            str_float B (ram_usage s) @ ''% ('' @ str_float B (ram_used s) @
            ''MB Used) | GPU: '' @ str_float B (gpu_usage s) @ ''% ('' @
            gpu_name s @ '')'' @ [newline])"
proof -
  have t: "snd (tick B iv h) = evs @ [Log INFO (clock h) (log_msg B s), Stdout (live_line B s)]"
    using assms(1) by (simp add: tick_def)
  have d: "deliver lg evs = lg"
    using assms by (rule fetch_events_debug)
  have "deliver lg (snd (tick B iv h)) = lg\<lparr>handler := write_record (handler lg) (clock h) INFO (log_msg B s)\<rparr>"
    using assms(2) by (simp add: t deliver_append d deliver_Cons deliver_Nil isEnabledFor_def)
  moreover obtain old where
    "active (write_record (handler lg) (clock h) INFO (log_msg B s)) =
       old @ format_record (clock h) INFO (log_msg B s) @ [newline]"
    using active_write_record by blast
  ultimately have "active (handler (deliver lg (snd (tick B iv h)))) =
       old @ format_record (clock h) INFO (log_msg B s) @ [newline]"
    by simp
  then show ?thesis
    using t by (auto simp: log_msg_def format_record_def)
qed

theorem tick_log_message_witness:
  "snd (tick sample_builtins 5 sample_host) =
     [Log INFO sample_tm ''CPU: 12.5% | RAM: 40.0% (1600.0MB Used) | GPU: 0.0% (N/A)'',
      Stdout (CHR 0x0D # ''[LIVE] CPU: 12.5% | RAM: 40.0% | GPU: 0.0%   '')] \<and>
   (\<exists>old. active (handler (deliver (setup_logger LOG_FILENAME)
             (snd (tick sample_builtins 5 sample_host)))) =
      old @ ''2024-01-15 09:30:05 | INFO | CPU: 12.5% | RAM: 40.0% (1600.0MB Used) | GPU: 0.0% (N/A)'' @
      [newline])"
proof -
  have l: "level (setup_logger LOG_FILENAME) = INFO"
    by (simp add: setup_logger_def)
  have c: "clock sample_host = sample_tm"
    by (simp add: sample_host_def)
  show ?thesis
    using tick_log_message [OF fetch_metrics_sample l, of sample_builtins 5]
    by (auto simp: c format_time_sample sample_builtins_def sample_str_float_values live_line_def)
qed

section \<open>The snapshot\<close>

lemma get_gpu_info_bounds:
  assumes "getGPUs h \<noteq> Inl KeyboardInterrupt"
    and "\<And>gs. getGPUs h = Inr gs \<Longrightarrow> list_all (\<lambda>g. 0 \<le> load g \<and> load g \<le> 1) gs"
  shows "\<exists>u n evs. get_gpu_info h = (Inr (u, n), evs) \<and> 0 \<le> u \<and> u \<le> 100 \<and>
           (case getGPUs h of Inr (g # rest) \<Rightarrow> n = name g | _ \<Rightarrow> u = 0 \<and> n = ''N/A'')"
proof (cases "getGPUs h")
  case (Inl x)
  with assms(1) obtain e where "getGPUs h = Inl (Exception e)" by (cases x) auto
  then show ?thesis by (simp add: get_gpu_info_def)
next
  case (Inr gs)
  show ?thesis
  proof (cases gs)
    case Nil
    with Inr show ?thesis by (simp add: get_gpu_info_def)
  next
    case (Cons g rest)
    with assms(2) [OF Inr] have l: "0 \<le> load g" "load g \<le> 1" by simp_all
    have p: "0 \<le> load g * 100" "load g * 100 \<le> of_int 100" using l by simp_all
    have "fl (load g * 100) \<le> of_int 100"
      using p by (rule fl_le_of_int) simp
    then have "py_round (float_mul (load g) 100) 2 \<le> of_int 100"
      unfolding float_mul_def by (rule py_round_le)
    moreover have "0 \<le> py_round (float_mul (load g) 100) 2"
      using p(1) by (simp add: py_round_nonneg fl_nonneg float_mul_def)
    ultimately show ?thesis
      using Inr Cons by (simp add: get_gpu_info_def)
  qed
qed

text \<open>
  Claim C7. When the CPU and memory providers answer with percentages in \<open>[0, 100]\<close> and
  non-negative byte counts, and the GPU query reports loads in \<open>[0, 1]\<close> (or fails with
  an \<open>Exception\<close>), \<open>fetch_metrics\<close> returns a snapshot, and in it the CPU, memory and
  GPU percentages lie in \<open>[0, 100]\<close>, the used and free memory are non-negative, and the
  GPU fields are the first device's or else the defaults \<open>0.0\<close> and \<open>"N/A"\<close>.
\<close>

theorem fetch_metrics_well_formed:
  assumes "cpu_percent h = Inr c" and "0 \<le> c" and "c \<le> 100"
    and "virtual_memory h = Inr vm" and "0 \<le> percent vm" and "percent vm \<le> 100"
    and "0 \<le> used vm" and "0 \<le> available vm"
    and "getGPUs h \<noteq> Inl KeyboardInterrupt"
    and "\<And>gs. getGPUs h = Inr gs \<Longrightarrow> list_all (\<lambda>g. 0 \<le> load g \<and> load g \<le> 1) gs"
  shows "\<exists>s evs. fetch_metrics h = (Inr s, evs) \<and>
           0 \<le> cpu_usage s \<and> cpu_usage s \<le> 100 \<and>
           0 \<le> ram_usage s \<and> ram_usage s \<le> 100 \<and>
           0 \<le> ram_used s \<and> 0 \<le> ram_free s \<and>
           0 \<le> gpu_usage s \<and> gpu_usage s \<le> 100 \<and>
           (case getGPUs h of
              Inr (g # rest) \<Rightarrow> gpu_name s = name g
            | _ \<Rightarrow> gpu_usage s = 0 \<and> gpu_name s = ''N/A'')"
proof -
  obtain u n evs where g: "get_gpu_info h = (Inr (u, n), evs)"
    and u: "0 \<le> u" "u \<le> 100"
    and n: "case getGPUs h of Inr (g # rest) \<Rightarrow> n = name g | _ \<Rightarrow> u = 0 \<and> n = ''N/A''"
    using get_gpu_info_bounds [OF assms(9,10)] by blast
  let ?s = "\<lparr>cpu_usage = c, ram_usage = percent vm,
              ram_used = py_round (of_int (used vm) / 1024 ^ 2) 2,
              ram_free = py_round (of_int (available vm) / 1024 ^ 2) 2,
              gpu_usage = u, gpu_name = n\<rparr>"
  have f: "fetch_metrics h = (Inr ?s, evs)"
    using assms(1,4) g by (simp add: fetch_metrics_def)
  have r: "0 \<le> ram_used ?s" "0 \<le> ram_free ?s"
    using assms(7,8) by (simp_all add: py_round_nonneg)
  have "fetch_metrics h = (Inr ?s, evs) \<and>
           0 \<le> cpu_usage ?s \<and> cpu_usage ?s \<le> 100 \<and>
           0 \<le> ram_usage ?s \<and> ram_usage ?s \<le> 100 \<and>
           0 \<le> ram_used ?s \<and> 0 \<le> ram_free ?s \<and>
           0 \<le> gpu_usage ?s \<and> gpu_usage ?s \<le> 100 \<and>
           (case getGPUs h of
              Inr (g # rest) \<Rightarrow> gpu_name ?s = name g
            | _ \<Rightarrow> gpu_usage ?s = 0 \<and> gpu_name ?s = ''N/A'')"
    using f r u n assms(2,3,5,6) by (simp split: sum.splits list.splits)
  then show ?thesis by blast
qed

theorem fetch_metrics_well_formed_witness:
  "\<exists>s evs. fetch_metrics (sample_host\<lparr>getGPUs := Inr [\<lparr>load = 1 / 3, name = ''GPU0''\<rparr>]\<rparr>) = (Inr s, evs) \<and>
           0 \<le> cpu_usage s \<and> cpu_usage s \<le> 100 \<and>
           0 \<le> ram_usage s \<and> ram_usage s \<le> 100 \<and>
           0 \<le> ram_used s \<and> 0 \<le> ram_free s \<and>
           0 \<le> gpu_usage s \<and> gpu_usage s \<le> 100 \<and>
           gpu_name s = ''GPU0''"
proof -
  let ?h = "sample_host\<lparr>getGPUs := Inr [\<lparr>load = 1 / 3, name = ''GPU0''\<rparr>]\<rparr>"
  have "cpu_percent ?h = Inr (25 / 2)" "virtual_memory ?h = Inr sample_vm"
    "getGPUs ?h \<noteq> Inl KeyboardInterrupt"
    "\<And>gs. getGPUs ?h = Inr gs \<Longrightarrow> list_all (\<lambda>g. 0 \<le> load g \<and> load g \<le> 1) gs"
    "0 \<le> percent sample_vm" "percent sample_vm \<le> 100" "0 \<le> used sample_vm"
    "0 \<le> available sample_vm"
    by (auto simp: sample_host_def sample_vm_def)
  then show ?thesis
    using fetch_metrics_well_formed [of ?h "25 / 2" sample_vm] by simp
qed

section \<open>The running loop\<close>

subsection \<open>Ticks and the loop\<close>

lemma tick_escapes: "fst (tick B iv h) = escapes iv h"
  by (simp add: tick_def fetch_metrics_def get_gpu_info_def escapes_def
      split: sum.splits exn.splits list.splits)

lemma loop_raise:
  "escapes iv h = Some x \<Longrightarrow> loop B iv (h # rest) = (Some (x, h), snd (tick B iv h))"
  using tick_escapes [of B iv h] by (cases "tick B iv h") simp

lemma loop_quiet:
  "list_all (\<lambda>h. escapes iv h = None) pre \<Longrightarrow>
   loop B iv (pre @ hs) = (fst (loop B iv hs), snd (loop B iv pre) @ snd (loop B iv hs))"
proof (induction pre)
  case Nil
  then show ?case by simp
next
  case (Cons h pre)
  then have "fst (tick B iv h) = None"
    by (simp add: tick_escapes)
  with Cons show ?case
    by (cases "tick B iv h") (simp add: split_beta)
qed

lemma loop_quiet_then_raise:
  assumes "list_all (\<lambda>h. escapes iv h = None) pre" and "escapes iv h = Some x"
  shows "loop B iv (pre @ h # rest) = (Some (x, h), snd (loop B iv pre) @ snd (tick B iv h))"
  by (simp add: loop_quiet [OF assms(1)] loop_raise [OF assms(2)] del: loop.simps)

lemma run_interrupted:
  assumes "list_all (\<lambda>h. escapes (interval m) h = None) pre"
    and "escapes (interval m) h = Some KeyboardInterrupt"
  shows "run B m t0 (pre @ h # rest) =
           (Returned,
            ([print (''System monitoring service started. (Log file: '' @ log_file m @ '')''),
              print (''Press CTRL+C to exit.'' @ [newline])] @ log_system_info B m t0 @
             snd (loop B (interval m) pre) @ snd (tick B (interval m) h)) @
            [Stdout ([newline, newline] @ ''Stopping service...'' @ [newline]),
             Log INFO (clock_except h) ''--- MONITOR STOPPED ---''])"
  by (simp add: run_def loop_quiet_then_raise [OF assms] print_def del: loop.simps)


subsection \<open>A write of the log file that fails\<close>






subsection \<open>What reaches the file\<close>

lemma active_handle_Log:
  "isEnabledFor lg lvl \<Longrightarrow>
   \<exists>old. active (handler (handle lg (Log lvl t msg))) = old @ format_record t lvl msg @ [newline]"
  using active_write_record [of "handler lg" t lvl msg] by simp

lemma is_open_append_text: "is_open s \<Longrightarrow> is_open (append_text s txt)"
  by (simp add: append_text_def rotate_def Let_def)

lemma is_open_handle: "is_open (handler lg) \<Longrightarrow> is_open (handler (handle lg ev))"
  by (cases ev) (simp_all add: write_record_def is_open_append_text)

lemma is_open_deliver: "is_open (handler lg) \<Longrightarrow> is_open (handler (deliver lg evs))"
  unfolding deliver_def by (induction evs arbitrary: lg) (simp_all add: is_open_handle)

lemma init_enabled:
  assumes "init B iv lf h0 = Inr m"
  shows "isEnabledFor (deliver (logger m) evs) INFO"
    and "isEnabledFor (deliver (logger m) evs) CRITICAL"
    and "is_open (handler (deliver (logger m) evs))"
  using init_logger [OF assms]
  by (simp_all add: isEnabledFor_def level_deliver is_open_deliver setup_logger_def configure_def)

lemma deliver_ends_with_Log:
  assumes "isEnabledFor (deliver lg evs) lvl"
  shows "\<exists>old. active (handler (deliver lg (evs @ [Log lvl t msg]))) =
           old @ format_time t @ '' | '' @ levelname lvl @ '' | '' @ msg @ [newline]"
  using active_handle_Log [OF assms, of t msg]
  by (simp add: deliver_append deliver_Cons deliver_Nil format_record_def)


subsection \<open>Interrupt\<close>

text \<open>
  Claim C3, as the code has it. When the first exception to leave the loop body is a
  \<open>KeyboardInterrupt\<close>, \<open>run\<close> returns normally; the last two things it does are to
  print the acknowledgment and to log \<open>--- MONITOR STOPPED ---\<close> at \<open>INFO\<close>, so the active
  file ends with that record and nothing is written after it. \<open>run\<close> does not release
  the log resource: the sink is still open when it returns.
\<close>

theorem run_interrupt:
  assumes "init B iv lf h0 = Inr m"
    and "list_all (\<lambda>h. escapes (interval m) h = None) pre"
    and "escapes (interval m) h = Some KeyboardInterrupt"
  shows "fst (run B m t0 (pre @ h # rest)) = Returned \<and>
         (\<exists>evs. snd (run B m t0 (pre @ h # rest)) =
            evs @ [Stdout ([newline, newline] @ ''Stopping service...'' @ [newline]),
                   Log INFO (clock_except h) ''--- MONITOR STOPPED ---'']) \<and>
         (\<exists>old. active (handler (deliver (logger m) (snd (run B m t0 (pre @ h # rest))))) =
            old @ format_time (clock_except h) @ '' | INFO | --- MONITOR STOPPED ---'' @ [newline]) \<and>
         is_open (handler (deliver (logger m) (snd (run B m t0 (pre @ h # rest)))))"
proof -
  let ?evs = "[print (''System monitoring service started. (Log file: '' @ log_file m @ '')''),
              print (''Press CTRL+C to exit.'' @ [newline])] @ log_system_info B m t0 @
             snd (loop B (interval m) pre) @ snd (tick B (interval m) h) @
             [Stdout ([newline, newline] @ ''Stopping service...'' @ [newline])]"
  have r: "run B m t0 (pre @ h # rest) =
             (Returned, ?evs @ [Log INFO (clock_except h) ''--- MONITOR STOPPED ---''])"
    using run_interrupted [OF assms(2,3)] by simp
  have "\<exists>old. active (handler (deliver (logger m)
            (?evs @ [Log INFO (clock_except h) ''--- MONITOR STOPPED ---'']))) =
          old @ format_time (clock_except h) @ '' | '' @ levelname INFO @ '' | '' @
          ''--- MONITOR STOPPED ---'' @ [newline]"
    by (rule deliver_ends_with_Log) (rule init_enabled [OF assms(1)])
  then have f: "\<exists>old. active (handler (deliver (logger m) (snd (run B m t0 (pre @ h # rest))))) =
      old @ format_time (clock_except h) @ '' | INFO | --- MONITOR STOPPED ---'' @ [newline]"
    by (simp add: r)
  have e: "\<exists>evs. snd (run B m t0 (pre @ h # rest)) =
            evs @ [Stdout ([newline, newline] @ ''Stopping service...'' @ [newline]),
                   Log INFO (clock_except h) ''--- MONITOR STOPPED ---'']"
    using run_interrupted [OF assms(2,3)] by (simp only: snd_conv) blast
  show ?thesis
    using e f by (simp add: init_enabled [OF assms(1)]) (simp add: r)
qed

subsection \<open>Fault\<close>


subsection \<open>The sample run\<close>

lemma sample_escapes:
  "list_all (\<lambda>h. escapes (interval sample_monitor) h = None) [sample_host]"
  "escapes (interval sample_monitor) (sample_host\<lparr>sleep_raises := Some KeyboardInterrupt\<rparr>) =
     Some KeyboardInterrupt"
  "escapes (interval sample_monitor) (sample_host\<lparr>cpu_percent := Inl (Exception ''boom'')\<rparr>) =
     Some (Exception ''boom'')"
  by (simp_all add: escapes_def sample_host_def sample_monitor_def time_sleep_def)

lemma sample_clock_except: "clock_except (sample_host\<lparr>sleep_raises := x\<rparr>) = sample_tm"
  "clock_except (sample_host\<lparr>cpu_percent := y\<rparr>) = sample_tm"
  by (simp_all add: sample_host_def)

theorem run_interrupt_witness:
  "fst (run sample_builtins sample_monitor sample_tm
         ([sample_host] @ sample_host\<lparr>sleep_raises := Some KeyboardInterrupt\<rparr> # [sample_host])) =
     Returned \<and>
   (\<exists>old. active (handler (deliver (logger sample_monitor)
      (snd (run sample_builtins sample_monitor sample_tm
         ([sample_host] @ sample_host\<lparr>sleep_raises := Some KeyboardInterrupt\<rparr> # [sample_host]))))) =
      old @ ''2024-01-15 09:30:05 | INFO | --- MONITOR STOPPED ---'' @ [newline])"
  using run_interrupt [OF init_sample sample_escapes(1,2), of sample_tm "[sample_host]"]
  by (auto simp: sample_clock_except format_time_sample)

text \<open>
  Claim C3 as stated has \<open>run\<close> release the log resource. On the sample monitor, with an
  interrupt during the first sleep, \<open>run\<close> returns and the sink is still open.
\<close>

theorem run_interrupt_leaves_sink_open:
  "fst (run sample_builtins sample_monitor sample_tm
         [sample_host\<lparr>sleep_raises := Some KeyboardInterrupt\<rparr>]) = Returned \<and>
   is_open (handler (deliver (logger sample_monitor)
     (snd (run sample_builtins sample_monitor sample_tm
         [sample_host\<lparr>sleep_raises := Some KeyboardInterrupt\<rparr>]))))"
proof -
  have "list_all (\<lambda>h. escapes (interval sample_monitor) h = None) []"
    by simp
  from run_interrupted [OF this sample_escapes(2), of sample_builtins sample_tm "[]"]
  have "fst (run sample_builtins sample_monitor sample_tm
         [sample_host\<lparr>sleep_raises := Some KeyboardInterrupt\<rparr>]) = Returned"
    by simp
  then show ?thesis
    by (simp add: init_enabled(3) [OF init_sample])
qed




section \<open>The static system information\<close>

lemma gpu_no_header: "filter is_header (snd (get_gpu_info h)) = []"
  by (simp add: get_gpu_info_def split: sum.splits exn.splits list.splits)

lemma fetch_no_header: "filter is_header (snd (fetch_metrics h)) = []"
  using gpu_no_header [of h]
  by (auto simp: fetch_metrics_def split: sum.splits prod.splits)

lemma tick_no_header: "filter is_header (snd (tick B iv h)) = []"
  using fetch_no_header [of h]
  by (auto simp: tick_def log_msg_def split: sum.splits prod.splits)

lemma loop_no_header: "filter is_header (snd (loop B iv hs)) = []"
proof (induction hs)
  case Nil
  then show ?case by simp
next
  case (Cons h hs)
  then show ?case
    using tick_no_header [of B iv h]
    by (auto split: prod.splits option.splits)
qed

lemma run_events:
  "\<exists>evs. snd (run B m t0 hs) =
     [Stdout (''System monitoring service started. (Log file: '' @ log_file m @ '')'' @ [newline]),
      Stdout (''Press CTRL+C to exit.'' @ [newline, newline]),
      Log INFO t0 (''--- MONITOR STARTED ---'' @ [newline] @ ''System Info: '' @
                   str_dict B (os_info m))] @ evs \<and>
     filter is_header evs = []"
proof (cases "loop B (interval m) hs")
  case (Pair r evs)
  have n: "filter is_header evs = []"
    using loop_no_header [of B "interval m" hs] Pair by simp
  show ?thesis
  proof (cases r)
    case None
    with Pair n show ?thesis
      by (simp add: run_def log_system_info_def header_def print_def)
  next
    case (Some xh)
    obtain x h where xh: "xh = (x, h)" by (cases xh)
    show ?thesis
      using Pair Some xh n
      by (cases x) (simp_all add: run_def log_system_info_def header_def print_def)
  qed
qed


text \<open>
  Claim C9. \<open>_get_os_info\<close> reads only the static part of the host (system, version,
  machine, core count, total memory), so two calls within one process run, where that
  part does not change, give identical results whatever the other readings are. The
  monitor holds the result of the one call made by \<open>__init__\<close>, and \<open>run\<close> logs it exactly
  once: the third thing \<open>run\<close> does is the header call, and no later logging call of the
  run carries a header.
\<close>

theorem static_info_once:
  assumes "init B iv lf h0 = Inr m"
    and "system h = system h0" and "version h = version h0" and "machine h = machine h0"
    and "cpu_count h = cpu_count h0"
    and "virtual_memory h0 = Inr vm0" and "virtual_memory h = Inr vm" and "total vm = total vm0"
  shows "get_os_info B h = get_os_info B h0 \<and>
         get_os_info B h0 = Inr (os_info m) \<and>
         length (filter is_header (snd (run B m t0 hs))) = 1 \<and>
         (\<exists>evs. snd (run B m t0 hs) =
            [Stdout (''System monitoring service started. (Log file: '' @ log_file m @ '')'' @
                     [newline]),
             Stdout (''Press CTRL+C to exit.'' @ [newline, newline]),
             Log INFO t0 (''--- MONITOR STARTED ---'' @ [newline] @ ''System Info: '' @
                          str_dict B (os_info m))] @ evs \<and>
            filter is_header evs = [])"
proof -
  have a: "get_os_info B h = get_os_info B h0"
    using assms(2-8) by (simp add: get_os_info_def)
  have b: "get_os_info B h0 = Inr (os_info m)"
    using assms(1) by (auto simp: init_def split: sum.splits)
  obtain evs where e: "snd (run B m t0 hs) =
            [Stdout (''System monitoring service started. (Log file: '' @ log_file m @ '')'' @
                     [newline]),
             Stdout (''Press CTRL+C to exit.'' @ [newline, newline]),
             Log INFO t0 (''--- MONITOR STARTED ---'' @ [newline] @ ''System Info: '' @
                          str_dict B (os_info m))] @ evs"
    and n: "filter is_header evs = []"
    using run_events [of B m t0 hs] by blast
  have c: "length (filter is_header (snd (run B m t0 hs))) = 1"
    by (simp add: e n)
  show ?thesis
    using a b c e n by blast
qed

theorem static_info_once_witness:
  "get_os_info sample_builtins
     (sample_host\<lparr>virtual_memory := Inr (sample_vm\<lparr>used := 5\<rparr>), cpu_percent := Inr 99\<rparr>) =
   get_os_info sample_builtins sample_host \<and>
   get_os_info sample_builtins sample_host = Inr (os_info sample_monitor) \<and>
   length (filter is_header (snd (run sample_builtins sample_monitor sample_tm [sample_host]))) = 1"
proof -
  let ?h = "sample_host\<lparr>virtual_memory := Inr (sample_vm\<lparr>used := 5\<rparr>), cpu_percent := Inr 99\<rparr>"
  have "system ?h = system sample_host" "version ?h = version sample_host"
    "machine ?h = machine sample_host" "cpu_count ?h = cpu_count sample_host"
    "virtual_memory sample_host = Inr sample_vm"
    "virtual_memory ?h = Inr (sample_vm\<lparr>used := 5\<rparr>)"
    "total (sample_vm\<lparr>used := 5\<rparr>) = total sample_vm"
    by (simp_all add: sample_host_def)
  from static_info_once [OF init_sample this, of sample_tm "[sample_host]"]
  show ?thesis by blast
qed

section \<open>The format of a record\<close>

lemma is_digit_digit_char: "is_digit (digit_char d)"
  unfolding is_digit_def digit_char_def by (rule nth_mem) simp

lemma digit_char_not_newline: "digit_char d \<noteq> CHR 0x0A" "CHR 0x0A \<noteq> digit_char d"
proof -
  have "digit_char d \<in> set ''0123456789''"
    using is_digit_digit_char [of d] by (simp only: is_digit_def)
  then show "digit_char d \<noteq> CHR 0x0A" "CHR 0x0A \<noteq> digit_char d"
    by auto
qed

lemma is_timestamp_format_time: "is_timestamp (format_time t)"
  by (simp add: format_time_def dec4_def dec2_def is_digit_digit_char)

lemma length_format_time: "length (format_time t) = 19"
  by (simp add: format_time_def dec4_def dec2_def)

lemma newline_notin_format_time: "newline \<notin> set (format_time t)"
  by (simp add: format_time_def dec4_def dec2_def newline_def digit_char_not_newline)

lemma newline_notin_levelname: "newline \<notin> set (levelname lvl)"
  by (cases lvl) (simp_all add: newline_def)

lemma is_record_line_format_record: "is_record_line (format_record t lvl msg)"
  by (cases lvl)
     (simp_all add: is_record_line_def format_record_def length_format_time
        is_timestamp_format_time)

lemma lines_from_one:
  "newline \<notin> set s \<Longrightarrow> lines_from cur (s @ [newline]) = [cur @ s]"
  by (induction s arbitrary: cur) auto

lemma lines_from_count:
  "length (filter (\<lambda>c. c = newline) s) \<le> length (lines_from cur s)"
  by (induction s arbitrary: cur) simp_all

lemma file_lines_record:
  "newline \<notin> set msg \<Longrightarrow>
   file_lines (format_record t lvl msg @ [newline]) = [format_record t lvl msg]"
proof -
  have "newline \<notin> set ('' | '')"
    by (simp add: newline_def)
  then have "newline \<notin> set (format_record t lvl msg)"
    if "newline \<notin> set msg"
    using that by (simp add: format_record_def newline_notin_format_time newline_notin_levelname)
  then show "newline \<notin> set msg \<Longrightarrow>
      file_lines (format_record t lvl msg @ [newline]) = [format_record t lvl msg]"
    by (simp add: file_lines_def lines_from_one)
qed

lemma file_lines_record_many:
  assumes "newline \<in> set msg"
  shows "1 < length (file_lines (format_record t lvl msg @ [newline]))"
proof -
  have "0 < length (filter (\<lambda>c. c = newline) msg)"
    using assms by (simp add: filter_empty_conv)
  then have "1 < length (filter (\<lambda>c. c = newline) (format_record t lvl msg @ [newline]))"
    by (simp add: format_record_def)
  then show ?thesis
    unfolding file_lines_def
    using lines_from_count [of "format_record t lvl msg @ [newline]" "[]"] by linarith
qed

text \<open>
  Claim C6, as the code has it. Every record appended to the log file is the text
  \<open>YYYY-MM-DD HH:MM:SS | LEVEL | message\<close>, with a timestamp to the second, followed by a
  line break. It occupies exactly one line of the file when its message contains no
  line break, and more than one line otherwise.
\<close>

theorem log_record_format:
  assumes "isEnabledFor lg lvl"
  shows "(\<exists>old. active (handler (handle lg (Log lvl t msg))) =
            old @ format_time t @ '' | '' @ levelname lvl @ '' | '' @ msg @ [newline]) \<and>
         is_timestamp (format_time t) \<and>
         is_record_line (format_time t @ '' | '' @ levelname lvl @ '' | '' @ msg) \<and>
         (if newline \<in> set msg
          then 1 < length (file_lines
                 (format_time t @ '' | '' @ levelname lvl @ '' | '' @ msg @ [newline]))
          else file_lines (format_time t @ '' | '' @ levelname lvl @ '' | '' @ msg @ [newline]) =
                 [format_time t @ '' | '' @ levelname lvl @ '' | '' @ msg])"
proof -
  have a: "\<exists>old. active (handler (handle lg (Log lvl t msg))) =
            old @ format_time t @ '' | '' @ levelname lvl @ '' | '' @ msg @ [newline]"
    using active_handle_Log [OF assms, of t msg] by (simp add: format_record_def)
  have b: "is_record_line (format_time t @ '' | '' @ levelname lvl @ '' | '' @ msg)"
    using is_record_line_format_record [of t lvl msg] by (simp add: format_record_def)
  have c: "newline \<in> set msg \<Longrightarrow>
      1 < length (file_lines
            (format_time t @ '' | '' @ levelname lvl @ '' | '' @ msg @ [newline]))"
    using file_lines_record_many [of msg t lvl] by (simp add: format_record_def)
  have d: "newline \<notin> set msg \<Longrightarrow>
      file_lines (format_time t @ '' | '' @ levelname lvl @ '' | '' @ msg @ [newline]) =
        [format_time t @ '' | '' @ levelname lvl @ '' | '' @ msg]"
    using file_lines_record [of msg t lvl] by (simp add: format_record_def)
  show ?thesis
    using a b c d is_timestamp_format_time [of t] by (simp del: append_assoc) 
qed

theorem log_record_format_witness:
  "(\<exists>old. active (handler (handle (setup_logger LOG_FILENAME)
       (Log INFO sample_tm ''--- MONITOR STOPPED ---''))) =
      old @ ''2024-01-15 09:30:05 | INFO | --- MONITOR STOPPED ---'' @ [newline]) \<and>
   file_lines (''2024-01-15 09:30:05 | INFO | --- MONITOR STOPPED ---'' @ [newline]) =
     [''2024-01-15 09:30:05 | INFO | --- MONITOR STOPPED ---'']"
proof -
  have "isEnabledFor (setup_logger LOG_FILENAME) INFO"
    by (simp add: isEnabledFor_def setup_logger_def)
  from log_record_format [OF this, of sample_tm "''--- MONITOR STOPPED ---''"]
  show ?thesis
    by (auto simp: format_time_sample newline_def)
qed

lemma str_dict_sample:
  "str_dict sample_builtins (os_info sample_monitor) =
     ''{'' @ quote ''OS'' @ '': '' @ quote ''Linux'' @ '', '' @ quote ''Version'' @ '': '' @
     quote ''#1 SMP'' @ '', '' @ quote ''Arch'' @ '': '' @ quote ''x86_64'' @ '', '' @
     quote ''Cores'' @ '': 8, '' @ quote ''Total_RAM'' @ '': '' @ quote ''3.91 GB'' @ ''}''"
  by (simp add: str_dict_def sample_builtins_def sample_monitor_def str_int_def str_nat.simps
      digit_char_def)

lemma header_sample_file:
  "active (handler (deliver (logger sample_monitor)
     (log_system_info sample_builtins sample_monitor sample_tm))) =
   ''2024-01-15 09:30:05 | INFO | --- MONITOR STARTED ---'' @ [newline] @
   ''System Info: '' @ str_dict sample_builtins (os_info sample_monitor) @ [newline]"
  by (simp add: str_dict_sample deliver_def log_system_info_def header_def isEnabledFor_def
      write_record_def append_text_def format_record_def format_time_sample quote_def)
     (simp add: sample_monitor_def setup_logger_def configure_def)

text \<open>
  Claim C6 as stated has every record, the startup header included, on one line of the
  stated form. The header message of \<open>log_system_info\<close> contains a line break: on the
  sample monitor the header record is two lines of the file, and the second,
  \<open>System Info: {...}\<close>, is not of the form.
\<close>

theorem header_record_two_lines:
  "file_lines (active (handler (deliver (logger sample_monitor)
     (log_system_info sample_builtins sample_monitor sample_tm)))) =
     [''2024-01-15 09:30:05 | INFO | --- MONITOR STARTED ---'',
      ''System Info: '' @ str_dict sample_builtins (os_info sample_monitor)] \<and>
   \<not> is_record_line (''System Info: '' @ str_dict sample_builtins (os_info sample_monitor))"
  by (simp add: header_sample_file str_dict_sample quote_def file_lines_def newline_def
      is_record_line_def)

section \<open>The rotating log sink\<close>

lemma append_text_config:
  "max_bytes (append_text s txt) = max_bytes s"
  "backup_count (append_text s txt) = backup_count s"
  by (simp_all add: append_text_def rotate_def Let_def)

lemma append_text_active:
  "active (append_text s txt) =
     (if max_bytes s < length (active s) + length txt then txt else active s @ txt)"
  by (simp add: append_text_def rotate_def Let_def)

lemma append_text_backups:
  "backups (append_text s txt) =
     (if max_bytes s < length (active s) + length txt
      then take (backup_count s) (active s # backups s) else backups s)"
  by (simp add: append_text_def rotate_def Let_def)

lemma append_text_backups_bound:
  "length (backups s) \<le> backup_count s \<Longrightarrow>
   length (backups (append_text s txt)) \<le> backup_count s"
  by (simp add: append_text_backups)

lemma append_text_active_bound:
  "length (active (append_text s txt)) \<le> max_bytes s \<or> active (append_text s txt) = txt"
  by (simp add: append_text_active)

lemma take_drops_oldest:
  "length bs = Suc n \<Longrightarrow> take (Suc n) (a # bs) = a # butlast bs"
  by (simp add: butlast_conv_take)

lemma write_all_snoc:
  "write_all s (rs @ [(t, lvl, msg)]) = write_record (write_all s rs) t lvl msg"
  by (induction rs arbitrary: s) auto

lemma write_all_config:
  "max_bytes (write_all s rs) = max_bytes s \<and> backup_count (write_all s rs) = backup_count s"
  by (induction rs arbitrary: s) (auto simp: write_record_def append_text_config)

lemma write_all_backups_bound:
  "length (backups s) \<le> backup_count s \<Longrightarrow>
   length (backups (write_all s rs)) \<le> backup_count s"
proof (induction rs arbitrary: s)
  case Nil
  then show ?case by simp
next
  case (Cons r rs)
  obtain t lvl msg where r: "r = (t, lvl, msg)" by (cases r)
  have "length (backups (write_record s t lvl msg)) \<le> backup_count (write_record s t lvl msg)"
    using Cons.prems by (simp add: write_record_def append_text_backups_bound append_text_config)
  from Cons.IH [OF this] show ?case
    by (simp add: r write_record_def append_text_config)
qed

lemma write_all_active_bound:
  assumes "length (active s) \<le> max_bytes s"
  shows "length (active (write_all s rs)) \<le> max_bytes s \<or>
         (rs \<noteq> [] \<and> active (write_all s rs) =
            format_record (fst (last rs)) (fst (snd (last rs))) (snd (snd (last rs))) @ [newline])"
proof (cases rs rule: rev_cases)
  case Nil
  with assms show ?thesis by simp
next
  case (snoc rs' r)
  obtain t lvl msg where r: "r = (t, lvl, msg)" by (cases r)
  show ?thesis
    using append_text_active_bound [of "write_all s rs'" "format_record t lvl msg @ [newline]"]
      write_all_config [of s rs']
    by (simp add: snoc r write_all_snoc write_record_def)
qed

lemma length_format_record:
  "length (format_record t lvl msg) = 25 + length (levelname lvl) + length msg"
  by (simp add: format_record_def format_time_def dec4_def dec2_def)

lemma length_sample_long_message: "length sample_long_message = 5 * 1024 * 1024"
  by (simp only: sample_long_message_def length_replicate)

text \<open>
  Claim C2. Take the sink as \<open>_setup_logger\<close> configures it, cap 5 MiB and 3 backups,
  after any sequence of writes. It keeps at most 3 backups. Its active file is no
  larger than the cap, unless it holds exactly the record written last, the one whose
  write rotated the file. The next write rotates first when appending the record would
  exceed the cap: the record then is the whole of the fresh active file, and the old
  active file becomes the most recent backup; with 3 backups present the oldest is
  dropped.
\<close>

theorem rotating_sink_bounds:
  assumes "s = write_all (handler (setup_logger lf)) rs"
  shows "max_bytes s = 5 * 1024 * 1024 \<and> backup_count s = 3 \<and>
         length (backups s) \<le> 3 \<and>
         (length (active s) \<le> 5 * 1024 * 1024 \<or>
          rs \<noteq> [] \<and>
          active s =
            format_record (fst (last rs)) (fst (snd (last rs))) (snd (snd (last rs))) @
            [newline]) \<and>
         active (write_record s t lvl msg) =
           (if 5 * 1024 * 1024 < length (active s) + length (format_record t lvl msg @ [newline])
            then format_record t lvl msg @ [newline]
            else active s @ format_record t lvl msg @ [newline]) \<and>
         backups (write_record s t lvl msg) =
           (if 5 * 1024 * 1024 < length (active s) + length (format_record t lvl msg @ [newline])
            then take 3 (active s # backups s)
            else backups s) \<and>
         (length (backups s) = 3 \<longrightarrow>
          take 3 (active s # backups s) = active s # butlast (backups s))"
proof -
  let ?s0 = "handler (setup_logger lf)"
  have c0: "max_bytes ?s0 = 5 * 1024 * 1024" "backup_count ?s0 = 3"
    "backups ?s0 = []" "active ?s0 = []"
    by (simp_all add: setup_logger_def configure_def)
  have c: "max_bytes s = 5 * 1024 * 1024" "backup_count s = 3"
    using write_all_config [of ?s0 rs] by (simp_all add: assms c0)
  have b: "length (backups s) \<le> 3"
    using write_all_backups_bound [of ?s0 rs] by (simp add: assms c0)
  have a: "length (active s) \<le> 5 * 1024 * 1024 \<or>
          rs \<noteq> [] \<and>
          active s =
            format_record (fst (last rs)) (fst (snd (last rs))) (snd (snd (last rs))) @
            [newline]"
    using write_all_active_bound [of ?s0 rs] by (simp add: assms c0)
  have w: "active (write_record s t lvl msg) =
           (if 5 * 1024 * 1024 < length (active s) + length (format_record t lvl msg @ [newline])
            then format_record t lvl msg @ [newline]
            else active s @ format_record t lvl msg @ [newline])"
    by (simp add: write_record_def append_text_active c)
  have k: "backups (write_record s t lvl msg) =
           (if 5 * 1024 * 1024 < length (active s) + length (format_record t lvl msg @ [newline])
            then take 3 (active s # backups s)
            else backups s)"
    by (simp add: write_record_def append_text_backups c)
  have d: "length (backups s) = 3 \<longrightarrow>
          take 3 (active s # backups s) = active s # butlast (backups s)"
    using take_drops_oldest [of "backups s" 2 "active s"] by (simp add: eval_nat_numeral)
  show ?thesis
    using c b a w k d by blast
qed

lemma length_sample_long_record:
  "length (format_record sample_tm INFO sample_long_message) = 5242909"
  by (simp add: length_format_record length_sample_long_message)

lemma sample_sink_full:
  "write_all (handler (setup_logger LOG_FILENAME))
     [(sample_tm, INFO, sample_long_message), (sample_tm, INFO, sample_long_message),
      (sample_tm, INFO, sample_long_message), (sample_tm, INFO, sample_long_message)] =
   \<lparr>path = LOG_FILENAME, max_bytes = 5 * 1024 * 1024, backup_count = 3, is_open = True,
    active = format_record sample_tm INFO sample_long_message @ [newline],
    backups = [format_record sample_tm INFO sample_long_message @ [newline],
               format_record sample_tm INFO sample_long_message @ [newline],
               format_record sample_tm INFO sample_long_message @ [newline]]\<rparr>"
  by (simp add: setup_logger_def configure_def write_record_def append_text_def rotate_def
      Let_def length_sample_long_record)

theorem rotating_sink_bounds_witness:
  "length (backups (write_all (handler (setup_logger LOG_FILENAME))
     [(sample_tm, INFO, sample_long_message), (sample_tm, INFO, sample_long_message),
      (sample_tm, INFO, sample_long_message), (sample_tm, INFO, sample_long_message)])) = 3 \<and>
   active (write_all (handler (setup_logger LOG_FILENAME))
     [(sample_tm, INFO, sample_long_message), (sample_tm, INFO, sample_long_message),
      (sample_tm, INFO, sample_long_message), (sample_tm, INFO, sample_long_message)]) =
     format_record sample_tm INFO sample_long_message @ [newline] \<and>
   active (write_record (write_all (handler (setup_logger LOG_FILENAME))
     [(sample_tm, INFO, sample_long_message), (sample_tm, INFO, sample_long_message),
      (sample_tm, INFO, sample_long_message), (sample_tm, INFO, sample_long_message)])
      sample_tm INFO ''x'') = format_record sample_tm INFO ''x'' @ [newline] \<and>
   backups (write_record (write_all (handler (setup_logger LOG_FILENAME))
     [(sample_tm, INFO, sample_long_message), (sample_tm, INFO, sample_long_message),
      (sample_tm, INFO, sample_long_message), (sample_tm, INFO, sample_long_message)])
      sample_tm INFO ''x'') =
     [format_record sample_tm INFO sample_long_message @ [newline],
      format_record sample_tm INFO sample_long_message @ [newline],
      format_record sample_tm INFO sample_long_message @ [newline]]"
proof -
  define S where "S = write_all (handler (setup_logger LOG_FILENAME))
     [(sample_tm, INFO, sample_long_message), (sample_tm, INFO, sample_long_message),
      (sample_tm, INFO, sample_long_message), (sample_tm, INFO, sample_long_message)]"
  have f: "active S = format_record sample_tm INFO sample_long_message @ [newline]"
    "backups S = [format_record sample_tm INFO sample_long_message @ [newline],
                  format_record sample_tm INFO sample_long_message @ [newline],
                  format_record sample_tm INFO sample_long_message @ [newline]]"
    unfolding S_def by (simp_all only: sample_sink_full sink.simps)
  have "length (backups S) = 3 \<and>
        active S = format_record sample_tm INFO sample_long_message @ [newline] \<and>
        active (write_record S sample_tm INFO ''x'') =
          format_record sample_tm INFO ''x'' @ [newline] \<and>
        backups (write_record S sample_tm INFO ''x'') =
          [format_record sample_tm INFO sample_long_message @ [newline],
           format_record sample_tm INFO sample_long_message @ [newline],
           format_record sample_tm INFO sample_long_message @ [newline]]"
    using rotating_sink_bounds [OF S_def, of sample_tm INFO "''x''"]
    by (simp add: f length_sample_long_record)
  then show ?thesis
    unfolding S_def .
qed

end
